theory Spec2Isabelle
  imports Main "HOL-Library.AList"
begin

section \<open>The signaling server of \<open>src/server.js\<close>\<close>

text \<open>
  The server keeps two process-wide maps, \<open>rooms\<close> (room identifier to the set of
  socket identifiers) and \<open>users\<close> (socket identifier to \<open>{username, roomId}\<close>), and
  registers one handler per event kind on every accepted socket. The handlers are
  translated below one by one; each takes the state and the socket it was registered on
  and returns the new state together with the events it sent, or the exception it raised.
\<close>

subsection \<open>Values and payloads\<close>

text \<open>
  The values a payload field can hold. The model covers the primitive ones: a JS
  \<open>Map\<close> or \<open>Set\<close> compares primitive keys by value, which is the equality of this
  datatype. \<open>Undefined\<close> is what reading an absent property gives.
\<close>

datatype jsval = Undefined | Null | Str string

text \<open>
  The argument \<open>data\<close> of a handler: an object with its properties, or no object at
  all (\<open>undefined\<close> or \<open>null\<close>, as when the client emits the event with no argument).
\<close>

datatype payload = NoPayload | Payload "(string \<times> jsval) list"

datatype error = TypeError

text \<open>Reading a property of an object: \<open>undefined\<close> when the object has none of that name.\<close>

definition get_prop :: "(string \<times> jsval) list \<Rightarrow> string \<Rightarrow> jsval" where
  "get_prop fs k = (case map_of fs k of None \<Rightarrow> Undefined | Some v \<Rightarrow> v)"

type_synonym sid = string

record user =
  username :: jsval
  roomId :: jsval

subsection \<open>JS \<open>Map\<close> and \<open>Set\<close>\<close>

text \<open>
  A \<open>Map\<close> is an association list in insertion order (\<open>set\<close> is \<open>AList.update\<close>,
  \<open>delete\<close> is \<open>AList.delete\<close>, \<open>size\<close> is the length); a \<open>Set\<close> is a list in
  insertion order without repetitions.
\<close>

definition map_has :: "('k \<times> 'v) list \<Rightarrow> 'k \<Rightarrow> bool" where
  "map_has m k = (map_of m k \<noteq> None)"

definition map_size :: "('k \<times> 'v) list \<Rightarrow> nat" where
  "map_size m = length m"

definition set_add :: "'a list \<Rightarrow> 'a \<Rightarrow> 'a list" where
  "set_add xs x = (if x \<in> set xs then xs else xs @ [x])"

definition set_delete :: "'a list \<Rightarrow> 'a \<Rightarrow> 'a list" where
  "set_delete xs x = removeAll x xs"

subsection \<open>State\<close>

text \<open>
  \<open>rooms\<close> and \<open>users\<close> are the two maps of \<open>server.js\<close>. \<open>sockets\<close> is the
  transport's own bookkeeping: the connected sockets, each with its \<open>socket.rooms\<close>.
\<close>

record state =
  rooms :: "(jsval \<times> sid list) list"
  users :: "(sid \<times> user) list"
  sockets :: "(sid \<times> jsval list) list"

definition init :: state where
  "init = \<lparr>rooms = [], users = [], sockets = []\<rparr>"

text \<open>The events a handler sends, with the fields of the object it emits.\<close>

datatype outbound =
    UsersInRoom "(sid \<times> jsval) list"
  | UserJoined sid jsval
  | UserLeft sid jsval
  | Offer sid jsval jsval
  | Answer sid jsval jsval
  | IceCandidate sid jsval
  | Message sid jsval jsval int

type_synonym delivery = "sid \<times> outbound"

subsection \<open>The transport\<close>

text \<open>
  Modelled from the spec: the transport (the socket.io library, not under \<open>src/\<close>).
  The spec's transport boundary gives "room-scoped broadcast (send to all identifiers
  currently in a room, optionally excluding the sender)"; the library's \<open>socket.to(r).emit\<close>
  is that primitive, and the source uses it for rooms and for target identifiers alike.
  On accept a socket is in the room named by its own identifier (the source relies on it:
  \<open>room !== socket.id\<close>), and on close it has left every room before the
  \<open>disconnect\<close> handler runs. One broadcast reaches its recipients in the order in
  which they connected; no property below depends on that order.
\<close>

definition is_live :: "state \<Rightarrow> sid \<Rightarrow> bool" where
  "is_live s i = map_has (sockets s) i"

definition socket_rooms :: "state \<Rightarrow> sid \<Rightarrow> jsval list" where
  "socket_rooms s i = (case map_of (sockets s) i of None \<Rightarrow> [] | Some rs \<Rightarrow> rs)"

definition socket_join :: "state \<Rightarrow> sid \<Rightarrow> jsval \<Rightarrow> state" where
  "socket_join s i r =
     (case map_of (sockets s) i of
        None \<Rightarrow> s
      | Some rs \<Rightarrow> s\<lparr>sockets := AList.update i (set_add rs r) (sockets s)\<rparr>)"

definition socket_leave :: "state \<Rightarrow> sid \<Rightarrow> jsval \<Rightarrow> state" where
  "socket_leave s i r =
     (case map_of (sockets s) i of
        None \<Rightarrow> s
      | Some rs \<Rightarrow> s\<lparr>sockets := AList.update i (set_delete rs r) (sockets s)\<rparr>)"

text \<open>\<open>socket.to(r)\<close>: every connected socket in room \<open>r\<close> but the sender.\<close>

definition recipients :: "state \<Rightarrow> sid \<Rightarrow> jsval \<Rightarrow> sid list" where
  "recipients s i r =
     filter (\<lambda>t. t \<noteq> i \<and> r \<in> set (socket_rooms s t)) (map fst (sockets s))"

definition to_emit :: "state \<Rightarrow> sid \<Rightarrow> jsval \<Rightarrow> outbound \<Rightarrow> delivery list" where
  "to_emit s i r ev = map (\<lambda>t. (t, ev)) (recipients s i r)"

definition accept :: "state \<Rightarrow> sid \<Rightarrow> state" where
  "accept s i = s\<lparr>sockets := AList.update i [Str i] (sockets s)\<rparr>"

definition close :: "state \<Rightarrow> sid \<Rightarrow> state" where
  "close s i = s\<lparr>sockets := AList.delete i (sockets s)\<rparr>"

subsection \<open>The status endpoint\<close>

record status =
  activeRooms :: nat
  activeUsers :: nat

definition health :: "state \<Rightarrow> status" where
  "health s = \<lparr>activeRooms = map_size (rooms s), activeUsers = map_size (users s)\<rparr>"

subsection \<open>The handlers\<close>

text \<open>\<open>users.get(id)?.username\<close>\<close>

definition username_of :: "state \<Rightarrow> sid \<Rightarrow> jsval" where
  "username_of s i = (case map_of (users s) i of None \<Rightarrow> Undefined | Some u \<Rightarrow> username u)"

text \<open>
  \<open>Array.from(socket.rooms).forEach(room => { if (room !== socket.id) socket.leave(room) })\<close>
\<close>

definition leave_previous :: "state \<Rightarrow> sid \<Rightarrow> state" where
  "leave_previous s i =
     fold (\<lambda>room st. if room \<noteq> Str i then socket_leave st i room else st)
       (socket_rooms s i) s"

text \<open>
  \<open>join-room\<close> (lines 39 to 81). Destructuring \<open>data\<close> raises when there is no object.
  \<open>rooms.get(roomId).add(socket.id)\<close> would raise on a missing room; the room is there
  after the \<open>has\<close>/\<open>set\<close> just before, and the model keeps the branch.
\<close>

definition on_join_room :: "state \<Rightarrow> sid \<Rightarrow> payload \<Rightarrow> error + state \<times> delivery list" where
  "on_join_room s i data =
     (case data of
        NoPayload \<Rightarrow> Inl TypeError
      | Payload fs \<Rightarrow>
          let rid = get_prop fs ''roomId'';
              uname = get_prop fs ''username'';
              s1 = leave_previous s i;
              s2 = socket_join s1 i rid;
              s3 = s2\<lparr>users := AList.update i \<lparr>username = uname, roomId = rid\<rparr> (users s2)\<rparr>;
              s4 = (if \<not> map_has (rooms s3) rid
                    then s3\<lparr>rooms := AList.update rid [] (rooms s3)\<rparr> else s3)
          in (case map_of (rooms s4) rid of
                None \<Rightarrow> Inl TypeError
              | Some ms \<Rightarrow>
                  let s5 = s4\<lparr>rooms := AList.update rid (set_add ms i) (rooms s4)\<rparr>;
                      otherUsers = map (\<lambda>t. (t, username_of s5 t))
                                     (filter (\<lambda>t. t \<noteq> i) (set_add ms i))
                  in Inr (s5, (i, UsersInRoom otherUsers)
                              # to_emit s5 i rid (UserJoined i uname))))"

text \<open>\<open>offer\<close>, \<open>answer\<close> and \<open>ice-candidate\<close> (lines 84 to 119).\<close>

definition on_offer :: "state \<Rightarrow> sid \<Rightarrow> payload \<Rightarrow> error + state \<times> delivery list" where
  "on_offer s i data =
     (case data of
        NoPayload \<Rightarrow> Inl TypeError
      | Payload fs \<Rightarrow>
          Inr (s, to_emit s i (get_prop fs ''targetId'')
                    (Offer i (username_of s i) (get_prop fs ''offer''))))"

definition on_answer :: "state \<Rightarrow> sid \<Rightarrow> payload \<Rightarrow> error + state \<times> delivery list" where
  "on_answer s i data =
     (case data of
        NoPayload \<Rightarrow> Inl TypeError
      | Payload fs \<Rightarrow>
          Inr (s, to_emit s i (get_prop fs ''targetId'')
                    (Answer i (username_of s i) (get_prop fs ''answer''))))"

definition on_ice_candidate :: "state \<Rightarrow> sid \<Rightarrow> payload \<Rightarrow> error + state \<times> delivery list" where
  "on_ice_candidate s i data =
     (case data of
        NoPayload \<Rightarrow> Inl TypeError
      | Payload fs \<Rightarrow>
          Inr (s, to_emit s i (get_prop fs ''targetId'')
                    (IceCandidate i (get_prop fs ''candidate''))))"

text \<open>
  \<open>message\<close> (lines 122 to 135). The sender is looked up before \<open>data\<close> is read;
  \<open>now\<close> is the value of \<open>Date.now()\<close>.
\<close>

definition on_message :: "int \<Rightarrow> state \<Rightarrow> sid \<Rightarrow> payload \<Rightarrow> error + state \<times> delivery list" where
  "on_message now s i data =
     (case map_of (users s) i of
        None \<Rightarrow> Inr (s, [])
      | Some u \<Rightarrow>
          (case data of
             NoPayload \<Rightarrow> Inl TypeError
           | Payload fs \<Rightarrow>
               Inr (s, to_emit s i (roomId u)
                         (Message i (username u) (get_prop fs ''message'') now))))"

text \<open>\<open>disconnect\<close> (lines 138 to 165). It reads no payload and cannot raise.\<close>

definition on_disconnect :: "state \<Rightarrow> sid \<Rightarrow> state \<times> delivery list" where
  "on_disconnect s i =
     (case map_of (users s) i of
        None \<Rightarrow> (s\<lparr>users := AList.delete i (users s)\<rparr>, [])
      | Some u \<Rightarrow>
          let s1 = (case map_of (rooms s) (roomId u) of
                      None \<Rightarrow> s
                    | Some ms \<Rightarrow>
                        let ms' = set_delete ms i;
                            s0 = s\<lparr>rooms := AList.update (roomId u) ms' (rooms s)\<rparr>
                        in if length ms' = 0
                           then s0\<lparr>rooms := AList.delete (roomId u) (rooms s0)\<rparr>
                           else s0);
              out = to_emit s1 i (roomId u) (UserLeft i (username u))
          in (s1\<lparr>users := AList.delete i (users s1)\<rparr>, out))"

subsection \<open>Dispatch\<close>

text \<open>
  What the transport delivers to the server. An identifier is handed out only while no
  live connection has it, and a socket that is not connected receives no event: both
  are the transport's doing, and \<open>step\<close> leaves the state alone there.
\<close>

datatype inbound =
    Connect sid
  | JoinRoom sid payload
  | OfferEv sid payload
  | AnswerEv sid payload
  | IceCandidateEv sid payload
  | MessageEv sid payload int
  | Disconnect sid

fun step :: "state \<Rightarrow> inbound \<Rightarrow> error + state \<times> delivery list" where
  "step s (Connect i) = (if is_live s i then Inr (s, []) else Inr (accept s i, []))"
| "step s (JoinRoom i d) = (if is_live s i then on_join_room s i d else Inr (s, []))"
| "step s (OfferEv i d) = (if is_live s i then on_offer s i d else Inr (s, []))"
| "step s (AnswerEv i d) = (if is_live s i then on_answer s i d else Inr (s, []))"
| "step s (IceCandidateEv i d) = (if is_live s i then on_ice_candidate s i d else Inr (s, []))"
| "step s (MessageEv i d now) = (if is_live s i then on_message now s i d else Inr (s, []))"
| "step s (Disconnect i) = (if is_live s i then Inr (on_disconnect (close s i) i) else Inr (s, []))"

text \<open>A run of events; an exception that no handler catches ends it.\<close>

fun exec :: "state \<Rightarrow> inbound list \<Rightarrow> error + state" where
  "exec s [] = Inr s"
| "exec s (ev # evs) = (case step s ev of Inl e \<Rightarrow> Inl e | Inr (s', out) \<Rightarrow> exec s' evs)"

subsection \<open>Notions the properties are stated with\<close>

text \<open>
  \<open>room_members\<close> is the member set the server keeps for a room (empty when the room is
  not in \<open>rooms\<close>); \<open>in_directory\<close> says that \<open>users\<close> has an entry for the socket;
  \<open>joined_to\<close> says that this entry records the room.
\<close>

definition room_members :: "state \<Rightarrow> jsval \<Rightarrow> sid list" where
  "room_members s r = (case map_of (rooms s) r of None \<Rightarrow> [] | Some ms \<Rightarrow> ms)"

definition in_directory :: "state \<Rightarrow> sid \<Rightarrow> bool" where
  "in_directory s i = map_has (users s) i"

definition joined_to :: "state \<Rightarrow> sid \<Rightarrow> jsval \<Rightarrow> bool" where
  "joined_to s i r = (case map_of (users s) i of None \<Rightarrow> False | Some u \<Rightarrow> roomId u = r)"


text \<open>The payload of a well-formed \<open>join-room\<close>: \<open>{roomId, username}\<close>.\<close>

definition join_payload :: "string \<Rightarrow> string \<Rightarrow> payload" where
  "join_payload r u = Payload [(''roomId'', Str r), (''username'', Str u)]"

text \<open>
  The facts that hold of every state the server reaches: the keys of each map are
  distinct; a socket with a directory entry is connected; a connected socket is in the
  transport room of its own identifier and of the room its directory entry records, and
  in no other; a socket with a directory entry is in the member set of the room the entry
  records; no member set in \<open>rooms\<close> is empty.
\<close>

definition inv_keys :: "state \<Rightarrow> bool" where
  "inv_keys s =
     (distinct (map fst (rooms s)) \<and> distinct (map fst (users s)) \<and> distinct (map fst (sockets s)))"

definition inv_live :: "state \<Rightarrow> bool" where
  "inv_live s = (\<forall>i u. map_of (users s) i = Some u \<longrightarrow> map_of (sockets s) i \<noteq> None)"

definition inv_sub :: "state \<Rightarrow> bool" where
  "inv_sub s =
     (\<forall>i rs. map_of (sockets s) i = Some rs \<longrightarrow>
        set rs = insert (Str i) (case map_of (users s) i of None \<Rightarrow> {} | Some u \<Rightarrow> {roomId u}))"

definition inv_member :: "state \<Rightarrow> bool" where
  "inv_member s =
     (\<forall>i u. map_of (users s) i = Some u \<longrightarrow>
        (\<exists>ms. map_of (rooms s) (roomId u) = Some ms \<and> i \<in> set ms))"

definition inv_nonempty :: "state \<Rightarrow> bool" where
  "inv_nonempty s = (\<forall>r ms. map_of (rooms s) r = Some ms \<longrightarrow> ms \<noteq> [])"

definition inv :: "state \<Rightarrow> bool" where
  "inv s = (inv_keys s \<and> inv_live s \<and> inv_sub s \<and> inv_member s \<and> inv_nonempty s)"

subsection \<open>States of the scenarios\<close>

text \<open>One socket connected, nothing joined.\<close>

definition one_connected :: state where
  "one_connected = \<lparr>rooms = [], users = [], sockets = [(''A'', [Str ''A''])]\<rparr>"

text \<open>\<open>A\<close> joined \<open>r1\<close> as Alice and then \<open>r2\<close>.\<close>

definition after_switch :: state where
  "after_switch =
     \<lparr>rooms = [(Str ''r1'', [''A'']), (Str ''r2'', [''A''])],
      users = [(''A'', \<lparr>username = Str ''Alice'', roomId = Str ''r2''\<rparr>)],
      sockets = [(''A'', [Str ''A'', Str ''r2''])]\<rparr>"

text \<open>
  \<open>A\<close> joined \<open>r1\<close>, then \<open>r2\<close>, then closed; \<open>B\<close> is connected and has joined
  nothing.
\<close>

definition ghost_room :: state where
  "ghost_room =
     \<lparr>rooms = [(Str ''r1'', [''A''])],
      users = [],
      sockets = [(''B'', [Str ''B''])]\<rparr>"

text \<open>
  \<open>A\<close> and \<open>B\<close> joined \<open>r1\<close>, then \<open>A\<close> joined \<open>r2\<close>; \<open>C\<close> is connected and has
  joined nothing.
\<close>

definition moved_and_guest :: state where
  "moved_and_guest =
     \<lparr>rooms = [(Str ''r1'', [''A'', ''B'']), (Str ''r2'', [''A''])],
      users = [(''A'', \<lparr>username = Str ''Alice'', roomId = Str ''r2''\<rparr>),
               (''B'', \<lparr>username = Str ''Bob'', roomId = Str ''r1''\<rparr>)],
      sockets = [(''A'', [Str ''A'', Str ''r2'']), (''B'', [Str ''B'', Str ''r1'']),
                 (''C'', [Str ''C''])]\<rparr>"

text \<open>\<open>A\<close> (Alice) and \<open>B\<close> (Bob) joined \<open>r1\<close>.\<close>

definition two_in_room :: state where
  "two_in_room =
     \<lparr>rooms = [(Str ''r1'', [''A'', ''B''])],
      users = [(''A'', \<lparr>username = Str ''Alice'', roomId = Str ''r1''\<rparr>),
               (''B'', \<lparr>username = Str ''Bob'', roomId = Str ''r1''\<rparr>)],
      sockets = [(''A'', [Str ''A'', Str ''r1'']), (''B'', [Str ''B'', Str ''r1''])]\<rparr>"

text \<open>The same, after \<open>A\<close> joined \<open>r2\<close>.\<close>

definition one_moved :: state where
  "one_moved =
     \<lparr>rooms = [(Str ''r1'', [''A'', ''B'']), (Str ''r2'', [''A''])],
      users = [(''A'', \<lparr>username = Str ''Alice'', roomId = Str ''r2''\<rparr>),
               (''B'', \<lparr>username = Str ''Bob'', roomId = Str ''r1''\<rparr>)],
      sockets = [(''A'', [Str ''A'', Str ''r2'']), (''B'', [Str ''B'', Str ''r1''])]\<rparr>"

text \<open>\<open>A\<close> and \<open>B\<close> joined \<open>r1\<close>; \<open>C\<close> is connected and has joined nothing.\<close>

definition two_and_guest :: state where
  "two_and_guest =
     \<lparr>rooms = [(Str ''r1'', [''A'', ''B''])],
      users = [(''A'', \<lparr>username = Str ''Alice'', roomId = Str ''r1''\<rparr>),
               (''B'', \<lparr>username = Str ''Bob'', roomId = Str ''r1''\<rparr>)],
      sockets = [(''A'', [Str ''A'', Str ''r1'']), (''B'', [Str ''B'', Str ''r1'']),
                 (''C'', [Str ''C''])]\<rparr>"

section \<open>What the handlers compute\<close>

lemma fold_leave_fields:
  "rooms (fold (\<lambda>room st. if room \<noteq> Str i then socket_leave st i room else st) xs st) = rooms st
   \<and> users (fold (\<lambda>room st. if room \<noteq> Str i then socket_leave st i room else st) xs st) = users st"
  by (induction xs arbitrary: st) (auto simp: socket_leave_def split: option.splits)

lemma fold_leave_sockets:
  "map_of (sockets st) i = Some rs \<Longrightarrow>
   sockets (fold (\<lambda>room st. if room \<noteq> Str i then socket_leave st i room else st) xs st)
     = AList.update i (filter (\<lambda>r. r = Str i \<or> r \<notin> set xs) rs) (sockets st)"
proof (induction xs arbitrary: st rs)
  case Nil
  then show ?case by (simp add: update_triv)
next
  case (Cons x xs)
  show ?case
  proof (cases "x = Str i")
    case True
    have "filter (\<lambda>r. r = Str i \<or> r \<notin> set (x # xs)) rs = filter (\<lambda>r. r = Str i \<or> r \<notin> set xs) rs"
      using True by (intro filter_cong) auto
    with Cons True show ?thesis by simp
  next
    case False
    let ?st = "socket_leave st i x"
    have m: "map_of (sockets ?st) i = Some (removeAll x rs)"
      using Cons.prems by (simp add: socket_leave_def set_delete_def update_conv')
    have s: "sockets ?st = AList.update i (removeAll x rs) (sockets st)"
      using Cons.prems by (simp add: socket_leave_def set_delete_def)
    have f: "filter (\<lambda>r. r = Str i \<or> r \<notin> set xs) (removeAll x rs)
           = filter (\<lambda>r. r = Str i \<or> r \<notin> set (x # xs)) rs"
      using False by (induction rs) auto
    show ?thesis using Cons.IH [OF m] False by (simp add: s f)
  qed
qed

lemma leave_previous_rooms: "rooms (leave_previous s i) = rooms s"
  by (simp add: leave_previous_def fold_leave_fields)

lemma leave_previous_users: "users (leave_previous s i) = users s"
  by (simp add: leave_previous_def fold_leave_fields)

lemma leave_previous_sockets:
  "sockets (leave_previous s i) =
     (case map_of (sockets s) i of
        None \<Rightarrow> sockets s
      | Some rs \<Rightarrow> AList.update i (filter (\<lambda>r. r = Str i) rs) (sockets s))"
proof (cases "map_of (sockets s) i")
  case None
  then show ?thesis by (simp add: leave_previous_def socket_rooms_def)
next
  case (Some rs)
  have "filter (\<lambda>r. r = Str i \<or> r \<notin> set rs) rs = filter (\<lambda>r. r = Str i) rs"
    by (intro filter_cong) auto
  with Some fold_leave_sockets [OF Some, of rs] show ?thesis
    by (simp add: leave_previous_def socket_rooms_def)
qed

text \<open>The state after a join-room.\<close>

lemma join_result:
  assumes "on_join_room s i (Payload fs) = r"
  shows "\<exists>s'. r = Inr (s', (i, UsersInRoom (map (\<lambda>t. (t, username_of s' t))
                                   (filter (\<lambda>t. t \<noteq> i) (room_members s' (get_prop fs ''roomId'')))))
                         # to_emit s' i (get_prop fs ''roomId'') (UserJoined i (get_prop fs ''username'')))
      \<and> rooms s' = AList.update (get_prop fs ''roomId'')
                      (set_add (room_members s (get_prop fs ''roomId'')) i) (rooms s)
      \<and> users s' = AList.update i \<lparr>username = get_prop fs ''username'', roomId = get_prop fs ''roomId''\<rparr> (users s)
      \<and> sockets s' = (case map_of (sockets s) i of
                        None \<Rightarrow> sockets s
                      | Some rs \<Rightarrow> AList.update i (set_add (filter (\<lambda>r. r = Str i) rs) (get_prop fs ''roomId'')) (sockets s))"
  using assms
  by (auto simp: on_join_room_def Let_def map_has_def room_members_def update_conv'
      socket_join_def leave_previous_rooms leave_previous_users leave_previous_sockets
      split: option.splits)

lemma disconnect_result:
  assumes "on_disconnect (close s i) i = (s', out)"
  shows "users s' = AList.delete i (users s)"
    and "sockets s' = AList.delete i (sockets s)"
    and "rooms s' =
      (case map_of (users s) i of
         None \<Rightarrow> rooms s
       | Some u \<Rightarrow>
          (case map_of (rooms s) (roomId u) of
             None \<Rightarrow> rooms s
           | Some ms \<Rightarrow> if removeAll i ms = [] then AList.delete (roomId u) (rooms s)
                        else AList.update (roomId u) (removeAll i ms) (rooms s)))"
    and "out = (case map_of (users s) i of
                  None \<Rightarrow> []
                | Some u \<Rightarrow> to_emit (close s i) i (roomId u) (UserLeft i (username u)))"
  using assms
  by (auto simp: on_disconnect_def close_def Let_def set_delete_def delete_update_same
      to_emit_def recipients_def socket_rooms_def
      split: option.splits if_splits)

section \<open>Reachable states\<close>

lemma inv_init: "inv init"
  by (simp add: inv_def init_def inv_keys_def inv_live_def inv_sub_def inv_member_def inv_nonempty_def)

lemma inv_accept:
  assumes "inv s" and "\<not> is_live s i"
  shows "inv (accept s i)"
proof -
  have n: "map_of (sockets s) i = None" using assms(2) by (simp add: is_live_def map_has_def)
  have u: "map_of (users s) i = None"
    using assms(1) n by (cases "map_of (users s) i") (auto simp: inv_def inv_live_def)
  have "inv_keys (accept s i)"
    using assms(1) by (simp add: inv_def inv_keys_def accept_def distinct_update)
  moreover have "inv_live (accept s i)"
    using assms(1) by (auto simp: inv_def inv_live_def accept_def update_conv')
  moreover have "inv_sub (accept s i)"
    using assms(1) u by (auto simp: inv_def inv_sub_def accept_def update_conv' split: if_splits)
  moreover have "inv_member (accept s i)"
    using assms(1) by (simp add: inv_def inv_member_def accept_def)
  moreover have "inv_nonempty (accept s i)"
    using assms(1) by (simp add: inv_def inv_nonempty_def accept_def)
  ultimately show ?thesis by (simp add: inv_def)
qed

lemma set_set_add: "set (set_add xs x) = insert x (set xs)"
  by (auto simp: set_add_def)

lemma inv_join:
  assumes "inv s" and "is_live s i" and "on_join_room s i (Payload fs) = Inr (s', out)"
  shows "inv s'"
proof -
  obtain rs where rs: "map_of (sockets s) i = Some rs"
    using assms(2) by (auto simp: is_live_def map_has_def)
  define rid where "rid = get_prop fs ''roomId''"
  define un where "un = get_prop fs ''username''"
  from join_result [OF assms(3)] rs
  have R: "rooms s' = AList.update rid (set_add (room_members s rid) i) (rooms s)"
    and U: "users s' = AList.update i \<lparr>username = un, roomId = rid\<rparr> (users s)"
    and S: "sockets s' = AList.update i (set_add (filter (\<lambda>r. r = Str i) rs) rid) (sockets s)"
    by (auto simp: rid_def un_def)
  have own: "Str i \<in> set rs"
    using assms(1) rs by (auto simp: inv_def inv_sub_def)
  have "inv_keys s'"
    using assms(1) by (simp add: inv_def inv_keys_def R U S distinct_update)
  moreover have "inv_live s'"
    using assms(1) by (auto simp: inv_def inv_live_def U S update_conv' split: if_splits)
  moreover have "inv_sub s'"
    unfolding inv_sub_def
  proof (intro allI impI)
    fix j rs' assume a: "map_of (sockets s') j = Some rs'"
    show "set rs' = insert (Str j) (case map_of (users s') j of None \<Rightarrow> {} | Some u \<Rightarrow> {roomId u})"
    proof (cases "j = i")
      case True
      then have "rs' = set_add (filter (\<lambda>r. r = Str i) rs) rid" using a by (simp add: S update_conv')
      then show ?thesis using True own by (auto simp: U update_conv' set_set_add)
    next
      case False
      then have "map_of (sockets s) j = Some rs'" using a by (simp add: S update_conv')
      then show ?thesis using False assms(1) by (simp add: inv_def inv_sub_def U update_conv')
    qed
  qed
  moreover have "inv_member s'"
    unfolding inv_member_def
  proof (intro allI impI)
    fix j u assume a: "map_of (users s') j = Some u"
    show "\<exists>ms. map_of (rooms s') (roomId u) = Some ms \<and> j \<in> set ms"
    proof (cases "j = i")
      case True
      then have "roomId u = rid" using a by (auto simp: U update_conv')
      then show ?thesis using True by (simp add: R update_conv' set_set_add)
    next
      case False
      then have "map_of (users s) j = Some u" using a by (simp add: U update_conv')
      then obtain ms where ms: "map_of (rooms s) (roomId u) = Some ms" "j \<in> set ms"
        using assms(1) by (auto simp: inv_def inv_member_def)
      then show ?thesis
        by (cases "roomId u = rid") (auto simp: R update_conv' set_set_add room_members_def)
    qed
  qed
  moreover have "inv_nonempty s'"
    using assms(1)
    by (auto simp: inv_def inv_nonempty_def R update_conv' set_add_def split: if_splits)
  ultimately show ?thesis by (simp add: inv_def)
qed

lemma inv_disconnect:
  assumes "inv s" and "on_disconnect (close s i) i = (s', out)"
  shows "inv s'"
proof -
  note D = disconnect_result [OF assms(2)]
  have "inv_keys s'"
    using assms(1)
    by (auto simp: inv_def inv_keys_def D distinct_delete distinct_update split: option.splits)
  moreover have "inv_live s'"
    using assms(1)
    by (auto simp: inv_def inv_live_def D delete_conv' split: if_splits)
  moreover have "inv_sub s'"
    using assms(1)
    by (auto simp: inv_def inv_sub_def D(1,2) delete_conv' split: if_splits)
  moreover have "inv_member s'"
    unfolding inv_member_def
  proof (intro allI impI)
    fix j u assume a: "map_of (users s') j = Some u"
    then have ji: "j \<noteq> i" and uj: "map_of (users s) j = Some u"
      by (auto simp: D(1) delete_conv' split: if_splits)
    then obtain ms where ms: "map_of (rooms s) (roomId u) = Some ms" "j \<in> set ms"
      using assms(1) by (auto simp: inv_def inv_member_def)
    show "\<exists>ms. map_of (rooms s') (roomId u) = Some ms \<and> j \<in> set ms"
    proof (cases "map_of (users s) i")
      case None
      then show ?thesis using ms by (simp add: D(3))
    next
      case (Some v)
      show ?thesis
      proof (cases "map_of (rooms s) (roomId v)")
        case None
        then show ?thesis using ms Some by (simp add: D(3))
      next
        case (Some ms')
        show ?thesis
        proof (cases "roomId v = roomId u")
          case True
          then have "ms' = ms" using Some ms by simp
          moreover have "j \<in> set (removeAll i ms)" using ms ji by simp
          moreover from this have "removeAll i ms \<noteq> []" by (metis empty_iff empty_set)
          ultimately show ?thesis
            using \<open>map_of (users s) i = Some v\<close> Some True by (simp add: D(3) update_conv')
        next
          case False
          then show ?thesis
            using \<open>map_of (users s) i = Some v\<close> Some ms
            by (auto simp: D(3) update_conv' delete_conv')
        qed
      qed
    qed
  qed
  moreover have "inv_nonempty s'"
    using assms(1)
    by (auto simp: inv_def inv_nonempty_def D(3) update_conv' delete_conv'
        split: option.splits if_splits)
  ultimately show ?thesis by (simp add: inv_def)
qed

lemma inv_step:
  assumes "inv s" and "step s ev = Inr (s', out)"
  shows "inv s'"
proof (cases ev)
  case (Connect i)
  then show ?thesis using assms by (auto simp: inv_accept split: if_splits)
next
  case (JoinRoom i d)
  then show ?thesis using assms
    by (cases d) (auto simp: on_join_room_def intro: inv_join split: if_splits)
next
  case (OfferEv i d)
  then show ?thesis using assms by (cases d) (auto simp: on_offer_def split: if_splits)
next
  case (AnswerEv i d)
  then show ?thesis using assms by (cases d) (auto simp: on_answer_def split: if_splits)
next
  case (IceCandidateEv i d)
  then show ?thesis using assms by (cases d) (auto simp: on_ice_candidate_def split: if_splits)
next
  case (MessageEv i d now)
  then show ?thesis using assms
    by (cases d) (auto simp: on_message_def split: if_splits option.splits)
next
  case (Disconnect i)
  then show ?thesis using assms by (auto intro: inv_disconnect split: if_splits)
qed

lemma inv_exec:
  assumes "inv s" and "exec s evs = Inr s'"
  shows "inv s'"
  using assms
proof (induction evs arbitrary: s)
  case Nil
  then show ?case by simp
next
  case (Cons ev evs)
  then show ?case by (auto split: sum.splits dest: inv_step)
qed

lemma inv_reachable: "exec init evs = Inr s \<Longrightarrow> inv s"
  using inv_exec [OF inv_init] .

section \<open>Who receives a broadcast\<close>

lemma is_live_iff: "is_live s t \<longleftrightarrow> t \<in> fst ` set (sockets s)"
  by (simp add: is_live_def map_has_def map_of_eq_None_iff)

lemma recipients_iff:
  assumes "inv s"
  shows "t \<in> set (recipients s i x) \<longleftrightarrow> is_live s t \<and> t \<noteq> i \<and> (x = Str t \<or> joined_to s t x)"
proof (cases "map_of (sockets s) t")
  case None
  then show ?thesis
    by (auto simp: recipients_def is_live_def map_has_def map_of_eq_None_iff)
next
  case (Some rs)
  then have live: "t \<in> fst ` set (sockets s)"
    using map_of_eq_None_iff [of "sockets s" t] by auto
  have "set rs = insert (Str t) (case map_of (users s) t of None \<Rightarrow> {} | Some u \<Rightarrow> {roomId u})"
    using assms Some by (simp add: inv_def inv_sub_def)
  then have "x \<in> set rs \<longleftrightarrow> x = Str t \<or> joined_to s t x"
    by (auto simp: joined_to_def split: option.splits)
  then show ?thesis using Some live
    by (auto simp: recipients_def socket_rooms_def is_live_iff)
qed

lemma recipients_not_self: "i \<notin> set (recipients s i x)"
  by (simp add: recipients_def)

lemma filter_removeAll_cong:
  "\<not> P i \<Longrightarrow> (\<And>t. t \<in> set xs \<Longrightarrow> t \<noteq> i \<Longrightarrow> Q t = P t) \<Longrightarrow>
   filter Q (removeAll i xs) = filter P xs"
  by (induction xs) auto

lemma recipients_close: "recipients (close s i) i x = recipients s i x"
proof -
  have "filter (\<lambda>t. t \<noteq> i \<and> x \<in> set (socket_rooms (close s i) t)) (removeAll i (map fst (sockets s)))
      = filter (\<lambda>t. t \<noteq> i \<and> x \<in> set (socket_rooms s t)) (map fst (sockets s))"
    by (rule filter_removeAll_cong) (simp_all add: socket_rooms_def close_def delete_conv')
  then show ?thesis by (simp add: recipients_def close_def delete_keys)
qed

lemma filter_only:
  "distinct xs \<Longrightarrow> t \<in> set xs \<Longrightarrow> (\<And>y. y \<in> set xs \<Longrightarrow> P y = (y = t)) \<Longrightarrow> filter P xs = [t]"
proof (induction xs)
  case Nil
  then show ?case by simp
next
  case (Cons a xs)
  show ?case
  proof (cases "a = t")
    case True
    then have "t \<notin> set xs" using Cons.prems(1) by simp
    then have "filter P xs = []" using Cons.prems(3) by (auto simp: filter_empty_conv)
    then show ?thesis using True Cons.prems(3) by simp
  next
    case False
    then show ?thesis using Cons by auto
  qed
qed

lemma recipients_unicast:
  assumes "inv s" and "is_live s t" and "t \<noteq> i" and "\<And>j. \<not> joined_to s j (Str t)"
  shows "recipients s i (Str t) = [t]"
proof -
  have d: "distinct (map fst (sockets s))" using assms(1) by (simp add: inv_def inv_keys_def)
  have m: "t \<in> set (map fst (sockets s))" using assms(2) by (simp add: is_live_iff)
  have "(y \<noteq> i \<and> Str t \<in> set (socket_rooms s y)) = (y = t)"
    if y: "y \<in> set (map fst (sockets s))" for y
  proof -
    have l: "is_live s y" using y by (simp add: is_live_iff)
    have "(y \<noteq> i \<and> Str t \<in> set (socket_rooms s y)) = (y \<in> set (recipients s i (Str t)))"
      using y by (simp add: recipients_def)
    also have "\<dots> = (is_live s y \<and> y \<noteq> i \<and> (Str t = Str y \<or> joined_to s y (Str t)))"
      by (rule recipients_iff [OF assms(1)])
    also have "\<dots> = (y = t)"
    proof
      assume "is_live s y \<and> y \<noteq> i \<and> (Str t = Str y \<or> joined_to s y (Str t))"
      then show "y = t" using assms(4) by auto
    next
      assume "y = t"
      then show "is_live s y \<and> y \<noteq> i \<and> (Str t = Str y \<or> joined_to s y (Str t))"
        using assms(2,3) by simp
    qed
    finally show ?thesis .
  qed
  from filter_only [OF d m, of "\<lambda>y. y \<noteq> i \<and> Str t \<in> set (socket_rooms s y)", OF this]
  show ?thesis by (simp add: recipients_def)
qed

lemma recipients_empty:
  assumes "inv s" and "\<And>t. is_live s t \<Longrightarrow> t \<noteq> i \<Longrightarrow> x \<noteq> Str t \<and> \<not> joined_to s t x"
  shows "recipients s i x = []"
proof (rule ccontr)
  assume "recipients s i x \<noteq> []"
  then obtain t where t: "t \<in> set (recipients s i x)" by (cases "recipients s i x") auto
  then have "is_live s t \<and> t \<noteq> i \<and> (x = Str t \<or> joined_to s t x)"
    by (simp add: recipients_iff [OF assms(1)])
  then show False using assms(2) [of t] by simp
qed

section \<open>Runs\<close>



lemma map_size_card: "distinct (map fst m) \<Longrightarrow> map_size m = card (fst ` set m)"
  using distinct_card [of "map fst m"] by (simp add: map_size_def)

lemma step_in_directory:
  assumes "step s ev = Inr (s', out)" and "in_directory s' j \<noteq> in_directory s j"
  shows "(\<exists>d. ev = JoinRoom j d) \<or> ev = Disconnect j"
proof (cases ev)
  case (Connect i)
  then show ?thesis using assms by (auto simp: accept_def in_directory_def split: if_splits)
next
  case (JoinRoom i d)
  show ?thesis
  proof (cases d)
    case NoPayload
    then show ?thesis using assms JoinRoom by (auto simp: on_join_room_def split: if_splits)
  next
    case (Payload fs)
    then show ?thesis using assms JoinRoom join_result [OF refl, of s i fs]
      by (cases "i = j") (auto simp: in_directory_def map_has_def update_conv' split: if_splits)
  qed
next
  case (OfferEv i d)
  then show ?thesis using assms by (cases d) (auto simp: on_offer_def split: if_splits)
next
  case (AnswerEv i d)
  then show ?thesis using assms by (cases d) (auto simp: on_answer_def split: if_splits)
next
  case (IceCandidateEv i d)
  then show ?thesis using assms by (cases d) (auto simp: on_ice_candidate_def split: if_splits)
next
  case (MessageEv i d now)
  then show ?thesis using assms
    by (cases d) (auto simp: on_message_def split: if_splits option.splits)
next
  case (Disconnect i)
  show ?thesis
  proof (cases "is_live s i")
    case True
    then have "on_disconnect (close s i) i = (s', out)" using assms(1) Disconnect by simp
    from disconnect_result(1) [OF this] show ?thesis using assms(2) Disconnect
      by (cases "i = j") (auto simp: in_directory_def map_has_def delete_conv')
  next
    case False
    then show ?thesis using assms Disconnect by simp
  qed
qed

lemma joined_recipient:
  assumes "inv s" and "t \<noteq> i" and "joined_to s t r"
  shows "t \<in> set (recipients s i r)"
proof -
  obtain u where "map_of (users s) t = Some u"
    using assms(3) by (auto simp: joined_to_def split: option.splits)
  then have "is_live s t"
    using assms(1) by (auto simp: inv_def inv_live_def is_live_def map_has_def)
  then show ?thesis using assms(2,3) by (simp add: recipients_iff [OF assms(1)])
qed


lemma on_disconnect_absent:
  "map_of (users s) i = None \<Longrightarrow> on_disconnect s i = (s, [])"
proof -
  assume a: "map_of (users s) i = None"
  then have "i \<notin> fst ` set (users s)" by (simp add: map_of_eq_None_iff)
  then have "AList.delete i (users s) = users s" by simp
  then show ?thesis using a by (simp add: on_disconnect_def)
qed



section \<open>The claims\<close>

lemmas run_defs = init_def join_payload_def is_live_def map_has_def accept_def close_def
  on_join_room_def on_offer_def on_answer_def on_ice_candidate_def on_message_def on_disconnect_def
  get_prop_def leave_previous_def socket_rooms_def socket_leave_def socket_join_def
  set_add_def set_delete_def to_emit_def recipients_def username_of_def Let_def

text \<open>
  C1. The claim: after every event a connection identifier is in a room's member set if
  and only if its directory entry records that room, so that a connection that sends
  \<open>join-room\<close> several times is in exactly one member set, the room joined last.
  The code at the input \<open>A\<close> connects, joins \<open>r1\<close>, joins \<open>r2\<close>: the handler leaves
  the transport room \<open>r1\<close> but never takes \<open>A\<close> out of \<open>rooms.get(r1)\<close>, so \<open>A\<close>
  is in the member sets of both rooms while its directory entry records \<open>r2\<close>.
\<close>

theorem C1_stale_membership:
  "exec init [Connect ''A'', JoinRoom ''A'' (join_payload ''r1'' ''Alice''),
              JoinRoom ''A'' (join_payload ''r2'' ''Alice'')] = Inr after_switch
   \<and> ''A'' \<in> set (room_members after_switch (Str ''r1''))
   \<and> ''A'' \<in> set (room_members after_switch (Str ''r2''))
   \<and> joined_to after_switch ''A'' (Str ''r2'')
   \<and> \<not> joined_to after_switch ''A'' (Str ''r1'')"
  by (simp add: run_defs after_switch_def room_members_def joined_to_def)

text \<open>
  C2. The claim: a \<open>join-room\<close> from a connection already joined to another room \<open>R\<close>
  first removes it from the member set of \<open>R\<close> and broadcasts \<open>user-left\<close> to the
  members that remain in \<open>R\<close>. The code at the input \<open>A\<close> and \<open>B\<close> in \<open>r1\<close>, then
  \<open>A\<close> joins \<open>r2\<close>: the only event sent is \<open>users-in-room\<close> to \<open>A\<close>; \<open>B\<close> receives
  nothing, and \<open>A\<close> stays in the member set of \<open>r1\<close>.
\<close>

theorem C2_switch_without_leave:
  "exec init [Connect ''A'', Connect ''B'', JoinRoom ''A'' (join_payload ''r1'' ''Alice''),
              JoinRoom ''B'' (join_payload ''r1'' ''Bob'')] = Inr two_in_room
   \<and> step two_in_room (JoinRoom ''A'' (join_payload ''r2'' ''Alice''))
       = Inr (one_moved, [(''A'', UsersInRoom [])])
   \<and> room_members one_moved (Str ''r1'') = [''A'', ''B'']"
  by (simp add: run_defs two_in_room_def one_moved_def room_members_def)

text \<open>
  C3. The claim: no room with an empty member set stays in \<open>rooms\<close>; once the last
  member of a room has left it or closed, the room is gone, and a later \<open>join-room\<close> with
  the same identifier creates a fresh room whose member set holds the joiner alone.
  The code at the input \<open>A\<close> joins \<open>r1\<close>, joins \<open>r2\<close> and closes, then \<open>B\<close> joins
  \<open>r1\<close>: the switch leaves \<open>A\<close> in \<open>rooms.get(r1)\<close> and the close cleans up \<open>r2\<close>
  only, so \<open>r1\<close> stays in \<open>rooms\<close> with the closed connection as its one member. The
  room \<open>B\<close> then joins is not fresh: its member set is \<open>A\<close> and \<open>B\<close>, and \<open>B\<close> is told
  that \<open>A\<close>, with no name, is in the room.
\<close>

theorem C3_ghost_room:
  "exec init [Connect ''A'', Connect ''B'', JoinRoom ''A'' (join_payload ''r1'' ''Alice''),
              JoinRoom ''A'' (join_payload ''r2'' ''Alice''), Disconnect ''A''] = Inr ghost_room
   \<and> \<not> is_live ghost_room ''A''
   \<and> map_has (rooms ghost_room) (Str ''r1'')
   \<and> room_members ghost_room (Str ''r1'') = [''A'']
   \<and> step ghost_room (JoinRoom ''B'' (join_payload ''r1'' ''Bob''))
       = Inr (\<lparr>rooms = [(Str ''r1'', [''A'', ''B''])],
                users = [(''B'', \<lparr>username = Str ''Bob'', roomId = Str ''r1''\<rparr>)],
                sockets = [(''B'', [Str ''B'', Str ''r1''])]\<rparr>,
              [(''B'', UsersInRoom [(''A'', Undefined)])])"
  by (simp add: run_defs ghost_room_def room_members_def)

text \<open>
  C4, as amended. In every state the server reaches, a connection identifier that is in
  \<open>users\<close> belongs to a live connection. The entry is written by the connection's
  \<open>join-room\<close>, not on accept, and deleted on close: a connection just accepted is live
  and has no entry, after its \<open>join-room\<close> it has one, after its close it has none, and
  no other event adds or removes the entry of any connection. The status endpoint reports
  \<open>rooms.size\<close> and \<open>users.size\<close>, which are the numbers of keys of the two maps.
\<close>

theorem C4_directory_entries:
  assumes "exec init evs = Inr s"
  shows "(\<forall>i. in_directory s i \<longrightarrow> is_live s i)
   \<and> (\<forall>i. \<not> is_live s i \<longrightarrow>
         (\<exists>s'. step s (Connect i) = Inr (s', []) \<and> is_live s' i \<and> \<not> in_directory s' i))
   \<and> (\<forall>i fs. is_live s i \<longrightarrow>
         (\<exists>s' out. step s (JoinRoom i (Payload fs)) = Inr (s', out)
            \<and> is_live s' i \<and> in_directory s' i))
   \<and> (\<forall>i. is_live s i \<longrightarrow>
         (\<exists>s' out. step s (Disconnect i) = Inr (s', out)
            \<and> \<not> is_live s' i \<and> \<not> in_directory s' i))
   \<and> (\<forall>ev s' out j. step s ev = Inr (s', out) \<longrightarrow> in_directory s' j \<noteq> in_directory s j \<longrightarrow>
         (\<exists>d. ev = JoinRoom j d) \<or> ev = Disconnect j)
   \<and> activeRooms (health s) = map_size (rooms s)
   \<and> activeUsers (health s) = map_size (users s)
   \<and> map_size (rooms s) = card (fst ` set (rooms s))
   \<and> map_size (users s) = card (fst ` set (users s))"
proof -
  have i: "inv s" using assms by (rule inv_reachable)
  have a: "\<forall>i. in_directory s i \<longrightarrow> is_live s i"
    using i by (auto simp: inv_def inv_live_def in_directory_def is_live_def map_has_def)
  have b: "\<exists>s'. step s (Connect i) = Inr (s', []) \<and> is_live s' i \<and> \<not> in_directory s' i"
    if "\<not> is_live s i" for i
  proof -
    have "\<not> in_directory s i" using a that by blast
    then show ?thesis using that
      by (simp add: accept_def is_live_def in_directory_def map_has_def update_conv')
  qed
  have c: "\<exists>s' out. step s (JoinRoom i (Payload fs)) = Inr (s', out) \<and> is_live s' i \<and> in_directory s' i"
    if "is_live s i" for i fs
    using that join_result [OF refl, of s i fs]
    by (auto simp: is_live_def in_directory_def map_has_def update_conv')
  have d: "\<exists>s' out. step s (Disconnect i) = Inr (s', out) \<and> \<not> is_live s' i \<and> \<not> in_directory s' i"
    if "is_live s i" for i
  proof -
    obtain s' out where e: "on_disconnect (close s i) i = (s', out)"
      by (cases "on_disconnect (close s i) i")
    from disconnect_result(1,2) [OF e] show ?thesis using that e
      by (simp add: is_live_def in_directory_def map_has_def delete_conv')
  qed
  have e: "(\<exists>d. ev = JoinRoom j d) \<or> ev = Disconnect j"
    if "step s ev = Inr (s', out)" "in_directory s' j \<noteq> in_directory s j" for ev s' out j
    using that by (rule step_in_directory)
  have f: "map_size (rooms s) = card (fst ` set (rooms s))" "map_size (users s) = card (fst ` set (users s))"
    using i by (simp_all add: inv_def inv_keys_def map_size_card)
  show ?thesis using a b c d e f by (simp add: health_def)
qed

text \<open>
  C4 as stated fails right after accept: \<open>A\<close> is live and \<open>users\<close> has no entry for
  it, since only the \<open>join-room\<close> handler calls \<open>users.set\<close>.
\<close>

theorem C4_counterexample:
  "exec init [Connect ''A''] = Inr one_connected
   \<and> is_live one_connected ''A'' \<and> \<not> in_directory one_connected ''A''"
  by (simp add: run_defs one_connected_def in_directory_def)

text \<open>
  The amended C4 at the run that puts \<open>A\<close> and \<open>B\<close> into \<open>r1\<close>.
\<close>

theorem C4_directory_entries_witness:
  "exec init [Connect ''A'', Connect ''B'', JoinRoom ''A'' (join_payload ''r1'' ''Alice''),
              JoinRoom ''B'' (join_payload ''r1'' ''Bob'')] = Inr two_in_room
   \<and> in_directory two_in_room ''A'' \<and> is_live two_in_room ''A''
   \<and> activeRooms (health two_in_room) = 1 \<and> activeUsers (health two_in_room) = 2
   \<and> card (fst ` set (rooms two_in_room)) = 1 \<and> card (fst ` set (users two_in_room)) = 2"
proof -
  have e: "exec init [Connect ''A'', Connect ''B'', JoinRoom ''A'' (join_payload ''r1'' ''Alice''),
              JoinRoom ''B'' (join_payload ''r1'' ''Bob'')] = Inr two_in_room"
    by (simp add: run_defs two_in_room_def)
  have h: "map_size (rooms two_in_room) = 1" "map_size (users two_in_room) = 2"
    by (simp_all add: map_size_def two_in_room_def)
  show ?thesis
    using C4_directory_entries [OF e] e h
    by (simp add: in_directory_def is_live_def map_has_def) (simp add: two_in_room_def)
qed

text \<open>
  C5, as amended. For an \<open>offer\<close>, \<open>answer\<close> or \<open>ice-candidate\<close> whose payload is an
  object, the handler changes nothing in the state and sends the event to the live
  connections other than the sender that are in the transport room named by \<open>targetId\<close>:
  the connection with that identifier, and every connection whose directory entry
  records a room of that name. So the event reaches the target alone when \<open>targetId\<close>
  is the identifier of another live connection and no room has that name, and nobody
  when no other live connection has that identifier or is joined to a room of that name.
  \<open>offer\<close> and \<open>answer\<close> carry the sender's identifier and the \<open>username\<close> of its
  directory entry (\<open>undefined\<close> without an entry); \<open>ice-candidate\<close> carries the
  sender's identifier and the candidate.
\<close>

theorem C5_relay:
  assumes "exec init evs = Inr s" and "is_live s i"
  shows "step s (OfferEv i (Payload fs)) =
           Inr (s, map (\<lambda>t. (t, Offer i (username_of s i) (get_prop fs ''offer'')))
                     (recipients s i (get_prop fs ''targetId'')))
   \<and> step s (AnswerEv i (Payload fs)) =
           Inr (s, map (\<lambda>t. (t, Answer i (username_of s i) (get_prop fs ''answer'')))
                     (recipients s i (get_prop fs ''targetId'')))
   \<and> step s (IceCandidateEv i (Payload fs)) =
           Inr (s, map (\<lambda>t. (t, IceCandidate i (get_prop fs ''candidate'')))
                     (recipients s i (get_prop fs ''targetId'')))
   \<and> (\<forall>u. map_of (users s) i = Some u \<longrightarrow> username_of s i = username u)
   \<and> (\<not> in_directory s i \<longrightarrow> username_of s i = Undefined)
   \<and> (\<forall>t x. t \<in> set (recipients s i x) \<longleftrightarrow>
                is_live s t \<and> t \<noteq> i \<and> (x = Str t \<or> joined_to s t x))
   \<and> (\<forall>t. is_live s t \<longrightarrow> t \<noteq> i \<longrightarrow> (\<forall>j. \<not> joined_to s j (Str t)) \<longrightarrow>
          recipients s i (Str t) = [t])
   \<and> (\<forall>x. (\<forall>t. is_live s t \<longrightarrow> t \<noteq> i \<longrightarrow> x \<noteq> Str t \<and> \<not> joined_to s t x) \<longrightarrow>
          recipients s i x = [])"
proof -
  have i: "inv s" using assms(1) by (rule inv_reachable)
  have a: "step s (OfferEv i (Payload fs)) =
           Inr (s, map (\<lambda>t. (t, Offer i (username_of s i) (get_prop fs ''offer'')))
                     (recipients s i (get_prop fs ''targetId'')))"
    using assms(2) by (simp add: on_offer_def to_emit_def)
  have b: "step s (AnswerEv i (Payload fs)) =
           Inr (s, map (\<lambda>t. (t, Answer i (username_of s i) (get_prop fs ''answer'')))
                     (recipients s i (get_prop fs ''targetId'')))"
    using assms(2) by (simp add: on_answer_def to_emit_def)
  have c: "step s (IceCandidateEv i (Payload fs)) =
           Inr (s, map (\<lambda>t. (t, IceCandidate i (get_prop fs ''candidate'')))
                     (recipients s i (get_prop fs ''targetId'')))"
    using assms(2) by (simp add: on_ice_candidate_def to_emit_def)
  have d: "\<forall>u. map_of (users s) i = Some u \<longrightarrow> username_of s i = username u"
    by (simp add: username_of_def)
  have e: "\<not> in_directory s i \<longrightarrow> username_of s i = Undefined"
    by (simp add: username_of_def in_directory_def map_has_def)
  have f: "\<forall>t x. t \<in> set (recipients s i x) \<longleftrightarrow>
                is_live s t \<and> t \<noteq> i \<and> (x = Str t \<or> joined_to s t x)"
    using recipients_iff [OF i] by simp
  have g: "\<forall>t. is_live s t \<longrightarrow> t \<noteq> i \<longrightarrow> (\<forall>j. \<not> joined_to s j (Str t)) \<longrightarrow>
          recipients s i (Str t) = [t]"
    using recipients_unicast [OF i] by simp
  have h: "\<forall>x. (\<forall>t. is_live s t \<longrightarrow> t \<noteq> i \<longrightarrow> x \<noteq> Str t \<and> \<not> joined_to s t x) \<longrightarrow>
          recipients s i x = []"
    using recipients_empty [OF i] by simp
  from a b c d e f g h show ?thesis by (intro conjI)
qed

text \<open>
  C5 as stated fails when \<open>targetId\<close> is the name of a room: \<open>r1\<close> is no live
  connection, and the offer that \<open>C\<close> addresses to it is delivered to both members of
  the room, since \<open>socket.to(targetId)\<close> is the room broadcast.
\<close>

theorem C5_counterexample:
  "exec init [Connect ''A'', Connect ''B'', Connect ''C'',
              JoinRoom ''A'' (join_payload ''r1'' ''Alice''),
              JoinRoom ''B'' (join_payload ''r1'' ''Bob'')] = Inr two_and_guest
   \<and> \<not> is_live two_and_guest ''r1''
   \<and> step two_and_guest (OfferEv ''C'' (Payload [(''targetId'', Str ''r1''), (''offer'', Str ''sdp'')]))
       = Inr (two_and_guest, [(''A'', Offer ''C'' Undefined (Str ''sdp'')),
                              (''B'', Offer ''C'' Undefined (Str ''sdp''))])"
  by (simp add: run_defs two_and_guest_def)

text \<open>
  The amended C5 at an offer, an answer and a candidate from \<open>A\<close> to \<open>B\<close>, and at a
  target nobody has.
\<close>

theorem C5_relay_witness:
  "exec init [Connect ''A'', Connect ''B'', Connect ''C'',
              JoinRoom ''A'' (join_payload ''r1'' ''Alice''),
              JoinRoom ''B'' (join_payload ''r1'' ''Bob'')] = Inr two_and_guest
   \<and> is_live two_and_guest ''A''
   \<and> step two_and_guest (OfferEv ''A'' (Payload [(''targetId'', Str ''B''), (''offer'', Str ''sdp'')]))
       = Inr (two_and_guest, [(''B'', Offer ''A'' (Str ''Alice'') (Str ''sdp''))])
   \<and> step two_and_guest (AnswerEv ''A'' (Payload [(''targetId'', Str ''B''), (''offer'', Str ''sdp'')]))
       = Inr (two_and_guest, [(''B'', Answer ''A'' (Str ''Alice'') Undefined)])
   \<and> step two_and_guest (IceCandidateEv ''A'' (Payload [(''targetId'', Str ''B''), (''offer'', Str ''sdp'')]))
       = Inr (two_and_guest, [(''B'', IceCandidate ''A'' Undefined)])
   \<and> recipients two_and_guest ''A'' (Str ''gone'') = []"
proof -
  have e: "exec init [Connect ''A'', Connect ''B'', Connect ''C'',
              JoinRoom ''A'' (join_payload ''r1'' ''Alice''),
              JoinRoom ''B'' (join_payload ''r1'' ''Bob'')] = Inr two_and_guest"
    by (simp add: run_defs two_and_guest_def)
  have l: "is_live two_and_guest ''A''"
    by (simp add: run_defs two_and_guest_def)
  have u: "username_of two_and_guest ''A'' = Str ''Alice''"
    by (simp add: run_defs two_and_guest_def)
  have r: "recipients two_and_guest ''A'' (Str ''B'') = [''B'']"
    "recipients two_and_guest ''A'' (Str ''gone'') = []"
    by (simp_all add: run_defs two_and_guest_def)
  show ?thesis
    using C5_relay [OF e l, of "[(''targetId'', Str ''B''), (''offer'', Str ''sdp'')]"] e l u r
    by (simp add: get_prop_def)
qed

text \<open>
  C6. In every state the server reaches, a \<open>message\<close> from a live connection that has no
  directory entry sends nothing and leaves the state as it is, whatever the payload. From
  a connection with an entry, a \<open>message\<close> whose payload is an object goes to the other
  connections in the transport room of the sender's \<open>roomId\<close>, among them every other
  connection whose directory entry records that room, and never to the sender; it
  carries the sender's identifier, the \<open>username\<close> of its entry, the field \<open>message\<close>
  and the server's clock reading.
\<close>

theorem C6_message:
  assumes "exec init evs = Inr s" and "is_live s i"
  shows "(\<not> in_directory s i \<longrightarrow> step s (MessageEv i d now) = Inr (s, []))
   \<and> (\<forall>u. map_of (users s) i = Some u \<longrightarrow>
         step s (MessageEv i (Payload fs) now) =
           Inr (s, map (\<lambda>t. (t, Message i (username u) (get_prop fs ''message'') now))
                     (recipients s i (roomId u)))
         \<and> i \<notin> set (recipients s i (roomId u))
         \<and> (\<forall>t. t \<noteq> i \<longrightarrow> joined_to s t (roomId u) \<longrightarrow> t \<in> set (recipients s i (roomId u))))"
proof -
  have i: "inv s" using assms(1) by (rule inv_reachable)
  have a: "\<not> in_directory s i \<longrightarrow> step s (MessageEv i d now) = Inr (s, [])"
    using assms(2) by (simp add: on_message_def in_directory_def map_has_def)
  have b: "step s (MessageEv i (Payload fs) now) =
           Inr (s, map (\<lambda>t. (t, Message i (username u) (get_prop fs ''message'') now))
                     (recipients s i (roomId u)))" if "map_of (users s) i = Some u" for u
    using assms(2) that by (simp add: on_message_def to_emit_def)
  have c: "\<forall>t. t \<noteq> i \<longrightarrow> joined_to s t r \<longrightarrow> t \<in> set (recipients s i r)" for r
    using joined_recipient [OF i] by simp
  show ?thesis using a b c recipients_not_self by simp
qed

text \<open>
  C6 at a message from \<open>C\<close>, which has joined nothing, and at one from \<open>A\<close> in \<open>r1\<close>.
\<close>

theorem C6_message_witness:
  "exec init [Connect ''A'', Connect ''B'', Connect ''C'',
              JoinRoom ''A'' (join_payload ''r1'' ''Alice''),
              JoinRoom ''B'' (join_payload ''r1'' ''Bob'')] = Inr two_and_guest
   \<and> is_live two_and_guest ''A'' \<and> is_live two_and_guest ''C''
   \<and> in_directory two_and_guest ''A'' \<and> \<not> in_directory two_and_guest ''C''
   \<and> step two_and_guest (MessageEv ''C'' (Payload [(''message'', Str ''hi'')]) 1700000000000)
       = Inr (two_and_guest, [])
   \<and> step two_and_guest (MessageEv ''A'' (Payload [(''message'', Str ''hi'')]) 1700000000000)
       = Inr (two_and_guest, [(''B'', Message ''A'' (Str ''Alice'') (Str ''hi'') 1700000000000)])
   \<and> joined_to two_and_guest ''B'' (Str ''r1'')
   \<and> ''B'' \<in> set (recipients two_and_guest ''A'' (Str ''r1''))"
proof -
  have e: "exec init [Connect ''A'', Connect ''B'', Connect ''C'',
              JoinRoom ''A'' (join_payload ''r1'' ''Alice''),
              JoinRoom ''B'' (join_payload ''r1'' ''Bob'')] = Inr two_and_guest"
    by (simp add: run_defs two_and_guest_def)
  have l: "is_live two_and_guest ''A''" "is_live two_and_guest ''C''"
    by (simp_all add: run_defs two_and_guest_def)
  have n: "in_directory two_and_guest ''A''" "\<not> in_directory two_and_guest ''C''"
    "joined_to two_and_guest ''B'' (Str ''r1'')"
    by (simp_all add: in_directory_def joined_to_def run_defs two_and_guest_def)
  have u: "map_of (users two_and_guest) ''A'' = Some \<lparr>username = Str ''Alice'', roomId = Str ''r1''\<rparr>"
    by (simp add: two_and_guest_def)
  have r: "recipients two_and_guest ''A'' (Str ''r1'') = [''B'']"
    by (simp add: run_defs two_and_guest_def)
  show ?thesis
    using C6_message [OF e l(1), of "Payload [(''message'', Str ''hi'')]" 1700000000000 "[(''message'', Str ''hi'')]"]
      C6_message [OF e l(2), of "Payload [(''message'', Str ''hi'')]" 1700000000000 "[(''message'', Str ''hi'')]"]
      e l n u r
    by (simp add: get_prop_def)
qed

text \<open>
  C7. The claim: on \<open>join-room\<close> the joiner receives \<open>users-in-room\<close> listing every
  other current member of the room, and every other member of the room receives
  \<open>user-joined\<close>. The code at the input \<open>A\<close> and \<open>B\<close> join \<open>r1\<close>, \<open>A\<close> joins \<open>r2\<close>,
  then \<open>C\<close> joins \<open>r1\<close>: the snapshot is read from \<open>rooms.get(r1)\<close>, where the switch
  left \<open>A\<close>, and \<open>user-joined\<close> goes to the transport room, which \<open>A\<close> has left. So
  \<open>C\<close> is told that \<open>A\<close> and \<open>B\<close> are in \<open>r1\<close>, while \<open>A\<close>, whose directory entry
  records \<open>r2\<close>, receives no \<open>user-joined\<close>: whatever a member of \<open>r1\<close> is taken to
  be, \<open>A\<close> is treated as one by the first event and as none by the second.
\<close>

theorem C7_snapshot_lists_stale_member:
  "exec init [Connect ''A'', Connect ''B'', Connect ''C'',
              JoinRoom ''A'' (join_payload ''r1'' ''Alice''),
              JoinRoom ''B'' (join_payload ''r1'' ''Bob''),
              JoinRoom ''A'' (join_payload ''r2'' ''Alice'')] = Inr moved_and_guest
   \<and> joined_to moved_and_guest ''A'' (Str ''r2'')
   \<and> step moved_and_guest (JoinRoom ''C'' (join_payload ''r1'' ''Carol''))
       = Inr (\<lparr>rooms = [(Str ''r1'', [''A'', ''B'', ''C'']), (Str ''r2'', [''A''])],
                users = [(''A'', \<lparr>username = Str ''Alice'', roomId = Str ''r2''\<rparr>),
                         (''B'', \<lparr>username = Str ''Bob'', roomId = Str ''r1''\<rparr>),
                         (''C'', \<lparr>username = Str ''Carol'', roomId = Str ''r1''\<rparr>)],
                sockets = [(''A'', [Str ''A'', Str ''r2'']), (''B'', [Str ''B'', Str ''r1'']),
                           (''C'', [Str ''C'', Str ''r1''])]\<rparr>,
              [(''C'', UsersInRoom [(''A'', Str ''Alice''), (''B'', Str ''Bob'')]),
               (''B'', UserJoined ''C'' (Str ''Carol''))])"
  by (simp add: run_defs moved_and_guest_def joined_to_def)

text \<open>
  C8. In every state the server reaches, closing a live connection gives a state on which
  the \<open>disconnect\<close> handler, run once more for the same identifier, sends nothing and
  changes nothing, and which ignores a second close. Closing a connection without a
  directory entry sends nothing and leaves \<open>rooms\<close> and \<open>users\<close> as they are. Closing
  a connection with an entry sends \<open>user-left\<close>, with the \<open>username\<close> the entry had, to
  the other connections in the transport room of its \<open>roomId\<close>, among them every other
  connection whose directory entry records that room; afterwards the identifier is in
  neither \<open>users\<close> nor the member set of that room.
\<close>

theorem C8_disconnect:
  assumes "exec init evs = Inr s" and "is_live s i"
  shows "\<exists>s' out. step s (Disconnect i) = Inr (s', out)
     \<and> on_disconnect s' i = (s', [])
     \<and> step s' (Disconnect i) = Inr (s', [])
     \<and> (\<not> in_directory s i \<longrightarrow> out = [] \<and> rooms s' = rooms s \<and> users s' = users s)
     \<and> (\<forall>u. map_of (users s) i = Some u \<longrightarrow>
           out = map (\<lambda>t. (t, UserLeft i (username u))) (recipients s i (roomId u))
           \<and> i \<notin> set (recipients s i (roomId u))
           \<and> (\<forall>t. t \<noteq> i \<longrightarrow> joined_to s t (roomId u) \<longrightarrow> t \<in> set (recipients s i (roomId u)))
           \<and> \<not> in_directory s' i
           \<and> i \<notin> set (room_members s' (roomId u)))"
proof -
  have i: "inv s" using assms(1) by (rule inv_reachable)
  obtain s' out where d: "on_disconnect (close s i) i = (s', out)"
    by (cases "on_disconnect (close s i) i")
  note D = disconnect_result [OF d]
  have st: "step s (Disconnect i) = Inr (s', out)" using assms(2) d by simp
  have n: "map_of (users s') i = None" by (simp add: D(1) delete_conv')
  have a: "on_disconnect s' i = (s', [])" using n by (rule on_disconnect_absent)
  have b: "step s' (Disconnect i) = Inr (s', [])"
    by (simp add: is_live_def map_has_def D(2) delete_conv')
  have c: "out = [] \<and> rooms s' = rooms s \<and> users s' = users s" if "\<not> in_directory s i"
  proof -
    have u: "map_of (users s) i = None" using that by (simp add: in_directory_def map_has_def)
    then have "i \<notin> fst ` set (users s)" by (simp add: map_of_eq_None_iff)
    then show ?thesis using u by (simp add: D)
  qed
  have e: "out = map (\<lambda>t. (t, UserLeft i (username u))) (recipients s i (roomId u))
           \<and> i \<notin> set (recipients s i (roomId u))
           \<and> (\<forall>t. t \<noteq> i \<longrightarrow> joined_to s t (roomId u) \<longrightarrow> t \<in> set (recipients s i (roomId u)))
           \<and> \<not> in_directory s' i
           \<and> i \<notin> set (room_members s' (roomId u))" if u: "map_of (users s) i = Some u" for u
  proof -
    have 1: "out = map (\<lambda>t. (t, UserLeft i (username u))) (recipients s i (roomId u))"
      using u by (simp add: D(4) to_emit_def recipients_close)
    have 2: "\<forall>t. t \<noteq> i \<longrightarrow> joined_to s t (roomId u) \<longrightarrow> t \<in> set (recipients s i (roomId u))"
      using joined_recipient [OF i] by simp
    have 3: "\<not> in_directory s' i" using n by (simp add: in_directory_def map_has_def)
    have 4: "i \<notin> set (room_members s' (roomId u))"
      using u by (auto simp: room_members_def D(3) update_conv' delete_conv' split: option.splits)
    show ?thesis using 1 2 3 4 recipients_not_self by simp
  qed
  show ?thesis
    using st a b c e by (intro exI [of _ s'] exI [of _ out]) simp
qed

text \<open>
  C8 at the close of \<open>B\<close>, which is in \<open>r1\<close> with \<open>A\<close>, the handler run again on the
  result, and the close of \<open>C\<close>, which has joined nothing.
\<close>

theorem C8_disconnect_witness:
  "exec init [Connect ''A'', Connect ''B'', Connect ''C'',
              JoinRoom ''A'' (join_payload ''r1'' ''Alice''),
              JoinRoom ''B'' (join_payload ''r1'' ''Bob'')] = Inr two_and_guest
   \<and> is_live two_and_guest ''B'' \<and> is_live two_and_guest ''C''
   \<and> step two_and_guest (Disconnect ''B'') =
       Inr (\<lparr>rooms = [(Str ''r1'', [''A''])],
              users = [(''A'', \<lparr>username = Str ''Alice'', roomId = Str ''r1''\<rparr>)],
              sockets = [(''A'', [Str ''A'', Str ''r1'']), (''C'', [Str ''C''])]\<rparr>,
            [(''A'', UserLeft ''B'' (Str ''Bob''))])
   \<and> on_disconnect \<lparr>rooms = [(Str ''r1'', [''A''])],
              users = [(''A'', \<lparr>username = Str ''Alice'', roomId = Str ''r1''\<rparr>)],
              sockets = [(''A'', [Str ''A'', Str ''r1'']), (''C'', [Str ''C''])]\<rparr> ''B''
      = (\<lparr>rooms = [(Str ''r1'', [''A''])],
              users = [(''A'', \<lparr>username = Str ''Alice'', roomId = Str ''r1''\<rparr>)],
              sockets = [(''A'', [Str ''A'', Str ''r1'']), (''C'', [Str ''C''])]\<rparr>, [])
   \<and> step two_and_guest (Disconnect ''C'') =
       Inr (\<lparr>rooms = [(Str ''r1'', [''A'', ''B''])],
              users = [(''A'', \<lparr>username = Str ''Alice'', roomId = Str ''r1''\<rparr>),
                       (''B'', \<lparr>username = Str ''Bob'', roomId = Str ''r1''\<rparr>)],
              sockets = [(''A'', [Str ''A'', Str ''r1'']), (''B'', [Str ''B'', Str ''r1''])]\<rparr>, [])"
proof -
  have e: "exec init [Connect ''A'', Connect ''B'', Connect ''C'',
              JoinRoom ''A'' (join_payload ''r1'' ''Alice''),
              JoinRoom ''B'' (join_payload ''r1'' ''Bob'')] = Inr two_and_guest"
    by (simp add: run_defs two_and_guest_def)
  have l: "is_live two_and_guest ''B''" "is_live two_and_guest ''C''"
    by (simp_all add: run_defs two_and_guest_def)
  show ?thesis
    using C8_disconnect [OF e l(1)] C8_disconnect [OF e l(2)] e l
    by (simp add: run_defs two_and_guest_def)
qed




text \<open>
  C10. In every state the server reaches, an \<open>offer\<close>, \<open>answer\<close> or \<open>ice-candidate\<close>
  with an object payload from a live connection that has no directory entry is relayed
  all the same: it goes to every recipient of the transport room named by \<open>targetId\<close>,
  the state is unchanged, and the name field of \<open>offer\<close> and \<open>answer\<close> is
  \<open>undefined\<close>. A live connection other than the sender is among the recipients of its
  own identifier.
\<close>

theorem C10_unjoined_sender:
  assumes "exec init evs = Inr s" and "is_live s i" and "\<not> in_directory s i"
  shows "step s (OfferEv i (Payload fs)) =
           Inr (s, map (\<lambda>t. (t, Offer i Undefined (get_prop fs ''offer'')))
                     (recipients s i (get_prop fs ''targetId'')))
   \<and> step s (AnswerEv i (Payload fs)) =
           Inr (s, map (\<lambda>t. (t, Answer i Undefined (get_prop fs ''answer'')))
                     (recipients s i (get_prop fs ''targetId'')))
   \<and> step s (IceCandidateEv i (Payload fs)) =
           Inr (s, map (\<lambda>t. (t, IceCandidate i (get_prop fs ''candidate'')))
                     (recipients s i (get_prop fs ''targetId'')))
   \<and> (\<forall>t. is_live s t \<longrightarrow> t \<noteq> i \<longrightarrow> t \<in> set (recipients s i (Str t)))"
proof -
  have i: "inv s" using assms(1) by (rule inv_reachable)
  have u: "username_of s i = Undefined"
    using assms(3) by (simp add: username_of_def in_directory_def map_has_def)
  have r: "\<forall>t. is_live s t \<longrightarrow> t \<noteq> i \<longrightarrow> t \<in> set (recipients s i (Str t))"
    by (simp add: recipients_iff [OF i])
  show ?thesis
    using assms(2) u r
    by (simp add: on_offer_def on_answer_def on_ice_candidate_def to_emit_def)
qed

text \<open>
  C10 at an offer from \<open>C\<close>, which has joined nothing, to \<open>B\<close>.
\<close>

theorem C10_unjoined_sender_witness:
  "exec init [Connect ''A'', Connect ''B'', Connect ''C'',
              JoinRoom ''A'' (join_payload ''r1'' ''Alice''),
              JoinRoom ''B'' (join_payload ''r1'' ''Bob'')] = Inr two_and_guest
   \<and> is_live two_and_guest ''C'' \<and> \<not> in_directory two_and_guest ''C''
   \<and> step two_and_guest (OfferEv ''C'' (Payload [(''targetId'', Str ''B''), (''offer'', Str ''sdp'')]))
       = Inr (two_and_guest, [(''B'', Offer ''C'' Undefined (Str ''sdp''))])
   \<and> ''B'' \<in> set (recipients two_and_guest ''C'' (Str ''B''))"
proof -
  have e: "exec init [Connect ''A'', Connect ''B'', Connect ''C'',
              JoinRoom ''A'' (join_payload ''r1'' ''Alice''),
              JoinRoom ''B'' (join_payload ''r1'' ''Bob'')] = Inr two_and_guest"
    by (simp add: run_defs two_and_guest_def)
  have l: "is_live two_and_guest ''C''" "is_live two_and_guest ''B''"
    by (simp_all add: run_defs two_and_guest_def)
  have n: "\<not> in_directory two_and_guest ''C''"
    by (simp add: in_directory_def run_defs two_and_guest_def)
  have r: "recipients two_and_guest ''C'' (Str ''B'') = [''B'']"
    by (simp add: run_defs two_and_guest_def)
  show ?thesis
    using C10_unjoined_sender [OF e l(1) n, of "[(''targetId'', Str ''B''), (''offer'', Str ''sdp'')]"] e l n r
    by (simp add: get_prop_def)
qed

end
